theory Spec2Isabelle
  imports Complex_Main "HOL-Library.Product_Lexorder" "HOL-Library.Multiset"
begin

section \<open>Strings\<close>

text \<open>
  Source texts are modelled as \<^typ>\<open>string\<close> (lists of 8-bit characters), so the model
  covers ASCII texts; Python's \<^verbatim>\<open>str\<close> methods are given their ASCII behaviour.
\<close>

definition newline :: char where
  "newline = CHR 0x0A"

text \<open>The ASCII characters that \<^verbatim>\<open>str.strip()\<close> removes.\<close>

definition is_space :: "char \<Rightarrow> bool" where
  "is_space c = (of_char c \<in> {9, 10, 11, 12, 13, 28, 29, 30, 31, 32 :: nat})"

text \<open>\<^verbatim>\<open>s.split('\n')\<close>: the segments between newlines; the empty text has one segment.\<close>

fun split_nl :: "string \<Rightarrow> string list" where
  "split_nl [] = [[]]"
| "split_nl (c # cs) =
     (if c = newline then [] # split_nl cs
      else (case split_nl cs of [] \<Rightarrow> [[c]] | l # ls \<Rightarrow> (c # l) # ls))"

definition strip :: "string \<Rightarrow> string" where
  "strip s = rev (dropWhile is_space (rev (dropWhile is_space s)))"

definition startswith :: "string \<Rightarrow> string \<Rightarrow> bool" where
  "startswith s p = (take (length p) s = p)"

definition lower_char :: "char \<Rightarrow> char" where
  "lower_char c =
     (if (65::nat) \<le> of_char c \<and> of_char c \<le> (90::nat) then char_of (of_char c + (32::nat)) else c)"

definition lower :: "string \<Rightarrow> string" where
  "lower s = map lower_char s"

text \<open>\<^verbatim>\<open>'\n'.join(lines)\<close>\<close>

fun join_nl :: "string list \<Rightarrow> string" where
  "join_nl [] = []"
| "join_nl [l] = l"
| "join_nl (l # ls) = l @ newline # join_nl ls"

section \<open>Numbers\<close>

text \<open>
  Python floats are modelled as rationals, so the arithmetic of the model is exact.
  \<^verbatim>\<open>round(x, ndigits)\<close> rounds to \<open>ndigits\<close> decimals, ties to the even digit.
\<close>

definition py_round :: "rat \<Rightarrow> nat \<Rightarrow> rat" where
  "py_round x ndigits =
     (let y = x * 10 ^ ndigits; f = \<lfloor>y\<rfloor>; d = y - of_int f
      in of_int (if d < 1 / 2 then f else if 1 / 2 < d then f + 1
                 else if even f then f else f + 1) / 10 ^ ndigits)"

section \<open>difflib.SequenceMatcher, as the detector uses it\<close>

text \<open>
  The detector calls \<^verbatim>\<open>SequenceMatcher(None, code1, code2).ratio()\<close>: no junk
  predicate, the automatic junk heuristic left on. The definitions follow
  \<^verbatim>\<open>difflib.py\<close> of CPython 3.11.

  \<^verbatim>\<open>__chain_b\<close>: \<open>b2j\<close> maps an element of \<open>b\<close> to the ascending list of its
  positions; when \<open>b\<close> has 200 elements or more, the elements that occur more than
  \<open>n // 100 + 1\<close> times ("popular") are removed.
\<close>

definition chain_b :: "string \<Rightarrow> (char \<rightharpoonup> nat list)" where
  "chain_b b =
     (let b2j = fold (\<lambda>(i, elt) m. m(elt \<mapsto> (case m elt of None \<Rightarrow> [] | Some idxs \<Rightarrow> idxs) @ [i]))
                  (enumerate 0 b) Map.empty;
          n = length b
      in if 200 \<le> n
         then (let ntest = n div 100 + 1
               in (\<lambda>elt. case b2j elt of None \<Rightarrow> None
                     | Some idxs \<Rightarrow> if ntest < length idxs then None else Some idxs))
         else b2j)"

text \<open>The junk set is empty, since \<^verbatim>\<open>isjunk\<close> is \<^verbatim>\<open>None\<close>.\<close>

definition isbjunk :: "char \<Rightarrow> bool" where
  "isbjunk c = False"

text \<open>
  The inner loop of \<^verbatim>\<open>find_longest_match\<close> over the positions \<open>j\<close> of \<open>a[i]\<close> in
  \<open>b\<close>. \<open>j2lenget j2len j\<close> is \<^verbatim>\<open>j2len.get(j-1, 0)\<close>, which finds nothing at \<open>j = 0\<close>,
  the key \<open>-1\<close> never being stored. The state is the best block so far and the new
  \<open>j2len\<close>.
\<close>

definition j2lenget :: "(nat \<rightharpoonup> nat) \<Rightarrow> nat \<Rightarrow> nat" where
  "j2lenget j2len j = (if j = 0 then 0 else (case j2len (j - 1) of None \<Rightarrow> 0 | Some v \<Rightarrow> v))"

fun flm_inner ::
  "nat \<Rightarrow> nat \<Rightarrow> nat \<Rightarrow> (nat \<rightharpoonup> nat) \<Rightarrow> nat list \<Rightarrow>
   (nat \<times> nat \<times> nat) \<times> (nat \<rightharpoonup> nat) \<Rightarrow> (nat \<times> nat \<times> nat) \<times> (nat \<rightharpoonup> nat)" where
  "flm_inner i blo bhi j2len [] st = st"
| "flm_inner i blo bhi j2len (j # js) ((besti, bestj, bestsize), newj2len) =
     (if j < blo then flm_inner i blo bhi j2len js ((besti, bestj, bestsize), newj2len)
      else if bhi \<le> j then ((besti, bestj, bestsize), newj2len)
      else
        (let k = j2lenget j2len j + 1
         in flm_inner i blo bhi j2len js
              (if bestsize < k then (i + 1 - k, j + 1 - k, k) else (besti, bestj, bestsize),
               newj2len(j \<mapsto> k))))"

fun flm_outer ::
  "string \<Rightarrow> (char \<rightharpoonup> nat list) \<Rightarrow> nat \<Rightarrow> nat \<Rightarrow> nat list \<Rightarrow>
   (nat \<times> nat \<times> nat) \<times> (nat \<rightharpoonup> nat) \<Rightarrow> (nat \<times> nat \<times> nat) \<times> (nat \<rightharpoonup> nat)" where
  "flm_outer a b2j blo bhi [] st = st"
| "flm_outer a b2j blo bhi (i # rest) (best, j2len) =
     flm_outer a b2j blo bhi rest
       (flm_inner i blo bhi j2len (case b2j (a ! i) of None \<Rightarrow> [] | Some idxs \<Rightarrow> idxs)
          (best, Map.empty))"

text \<open>
  The four \<^verbatim>\<open>while\<close> loops that extend the best block to the left and to the right,
  first over non-junk elements (\<open>junk = False\<close>), then over junk ones.
\<close>

function extend_left ::
  "bool \<Rightarrow> string \<Rightarrow> string \<Rightarrow> nat \<Rightarrow> nat \<Rightarrow> nat \<times> nat \<times> nat \<Rightarrow> nat \<times> nat \<times> nat" where
  "extend_left junk a b alo blo (besti, bestj, bestsize) =
     (if alo < besti \<and> blo < bestj \<and> isbjunk (b ! (bestj - 1)) = junk
         \<and> a ! (besti - 1) = b ! (bestj - 1)
      then extend_left junk a b alo blo (besti - 1, bestj - 1, bestsize + 1)
      else (besti, bestj, bestsize))"
  by pat_completeness auto
termination
  by (relation "measure (\<lambda>(junk, a, b, alo, blo, besti, bestj, bestsize). besti)") auto

function extend_right ::
  "bool \<Rightarrow> string \<Rightarrow> string \<Rightarrow> nat \<Rightarrow> nat \<Rightarrow> nat \<times> nat \<times> nat \<Rightarrow> nat \<times> nat \<times> nat" where
  "extend_right junk a b ahi bhi (besti, bestj, bestsize) =
     (if besti + bestsize < ahi \<and> bestj + bestsize < bhi
         \<and> isbjunk (b ! (bestj + bestsize)) = junk
         \<and> a ! (besti + bestsize) = b ! (bestj + bestsize)
      then extend_right junk a b ahi bhi (besti, bestj, bestsize + 1)
      else (besti, bestj, bestsize))"
  by pat_completeness auto
termination
  by (relation "measure (\<lambda>(junk, a, b, ahi, bhi, besti, bestj, bestsize). ahi - (besti + bestsize))") auto

declare extend_left.simps [simp del] extend_right.simps [simp del]

definition find_longest_match ::
  "string \<Rightarrow> string \<Rightarrow> (char \<rightharpoonup> nat list) \<Rightarrow> nat \<Rightarrow> nat \<Rightarrow> nat \<Rightarrow> nat \<Rightarrow> nat \<times> nat \<times> nat" where
  "find_longest_match a b b2j alo ahi blo bhi =
     extend_right True a b ahi bhi
       (extend_left True a b alo blo
          (extend_right False a b ahi bhi
             (extend_left False a b alo blo
                (fst (flm_outer a b2j blo bhi [alo..<ahi] ((alo, blo, 0), Map.empty))))))"

text \<open>
  Bounds on what \<^verbatim>\<open>find_longest_match\<close> returns: the block lies inside the
  ranges it was asked about. The loop of \<^verbatim>\<open>get_matching_blocks\<close> terminates
  because of them.
\<close>

definition best_ok :: "nat \<Rightarrow> nat \<Rightarrow> nat \<Rightarrow> nat \<Rightarrow> nat \<times> nat \<times> nat \<Rightarrow> bool" where
  "best_ok alo ahi blo bhi best =
     (case best of (bi, bj, bs) \<Rightarrow>
        alo \<le> bi \<and> blo \<le> bj \<and>
        (if bs = 0 then bi = alo \<and> bj = blo else bi + bs \<le> ahi \<and> bj + bs \<le> bhi))"

definition j2len_ok :: "nat \<Rightarrow> nat \<Rightarrow> nat \<Rightarrow> (nat \<rightharpoonup> nat) \<Rightarrow> bool" where
  "j2len_ok alo blo i m = (\<forall>j v. m j = Some v \<longrightarrow> blo \<le> j \<and> v \<le> i - alo \<and> v \<le> j + 1 - blo)"

lemma flm_inner_bounds:
  assumes "alo \<le> i" and "j2len_ok alo blo i j2len"
    and "best_ok alo (i + 1) blo bhi best" and "j2len_ok alo blo (i + 1) new"
  shows "best_ok alo (i + 1) blo bhi (fst (flm_inner i blo bhi j2len js (best, new)))
         \<and> j2len_ok alo blo (i + 1) (snd (flm_inner i blo bhi j2len js (best, new)))"
  using assms(3,4)
proof (induction js arbitrary: best new)
  case Nil
  then show ?case by simp
next
  case (Cons j js)
  obtain bi bj bs where best: "best = (bi, bj, bs)" by (cases best) auto
  show ?case
  proof (cases "j < blo")
    case True
    then show ?thesis using Cons.IH[OF Cons.prems] by (simp add: best)
  next
    case lo: False
    show ?thesis
    proof (cases "bhi \<le> j")
      case True
      with lo Cons.prems show ?thesis by (simp add: best)
    next
      case hi: False
      define k where "k = j2lenget j2len j + 1"
      have k1: "k \<le> i + 1 - alo"
        using assms(1,2) by (auto simp: k_def j2lenget_def j2len_ok_def split: option.splits)
          (metis Suc_diff_le Suc_le_mono)
      have k2: "k \<le> j + 1 - blo"
      proof (cases "j = 0")
        case True
        then show ?thesis using lo by (auto simp: k_def j2lenget_def)
      next
        case False
        show ?thesis
        proof (cases "j2len (j - 1)")
          case None
          then show ?thesis using lo by (auto simp: k_def j2lenget_def)
        next
          case (Some v)
          with assms(2) have "blo \<le> j - 1" "v \<le> j - 1 + 1 - blo"
            unfolding j2len_ok_def by blast+
          then show ?thesis using False Some by (auto simp: k_def j2lenget_def)
        qed
      qed
      have kpos: "0 < k" by (simp add: k_def)
      let ?best = "if bs < k then (i + 1 - k, j + 1 - k, k) else (bi, bj, bs)"
      have step: "flm_inner i blo bhi j2len (j # js) (best, new)
            = flm_inner i blo bhi j2len js (?best, new(j \<mapsto> k))"
        unfolding k_def best using lo hi by (simp add: Let_def)
      have a: "best_ok alo (i + 1) blo bhi ?best"
        using Cons.prems(1) k1 k2 kpos lo hi assms(1) by (auto simp: best_ok_def best)
      have d: "j2len_ok alo blo (i + 1) (new(j \<mapsto> k))"
        using Cons.prems(2) k1 k2 lo by (auto simp: j2len_ok_def)
      from Cons.IH[OF a d] show ?thesis by (simp only: step)
    qed
  qed
qed

lemma best_ok_mono: "best_ok alo ahi blo bhi best \<Longrightarrow> ahi \<le> ahi' \<Longrightarrow> best_ok alo ahi' blo bhi best"
  by (auto simp: best_ok_def split: prod.splits)

lemma flm_outer_bounds:
  assumes "alo \<le> i" and "j2len_ok alo blo i j2len" and "best_ok alo (min i ahi) blo bhi best"
  shows "best_ok alo ahi blo bhi (fst (flm_outer a b2j blo bhi [i..<ahi] (best, j2len)))"
  using assms
proof (induction "ahi - i" arbitrary: i best j2len)
  case 0
  then have "[i..<ahi] = []" "min i ahi = ahi" by simp_all
  with 0 show ?case by simp
next
  case (Suc n)
  then have lt: "i < ahi" by simp
  let ?idxs = "case b2j (a ! i) of None \<Rightarrow> [] | Some idxs \<Rightarrow> idxs"
  let ?st = "flm_inner i blo bhi j2len ?idxs (best, Map.empty)"
  have b: "best_ok alo (i + 1) blo bhi best"
    using Suc.prems(3) by (rule best_ok_mono) simp
  have e: "j2len_ok alo blo (i + 1) Map.empty" by (simp add: j2len_ok_def)
  from flm_inner_bounds[OF Suc.prems(1,2) b e, of ?idxs]
  have inv: "best_ok alo (Suc i) blo bhi (fst ?st)" "j2len_ok alo blo (Suc i) (snd ?st)"
    by simp_all
  have upt: "[i..<ahi] = i # [Suc i..<ahi]" using lt by (simp add: upt_rec)
  have rest: "flm_outer a b2j blo bhi [i..<ahi] (best, j2len)
      = flm_outer a b2j blo bhi [Suc i..<ahi] (fst ?st, snd ?st)"
    by (simp add: upt)
  have n: "n = ahi - Suc i" using Suc.hyps(2) by simp
  have le: "alo \<le> Suc i" using Suc.prems(1) by simp
  have m: "min (Suc i) ahi = Suc i" using lt by simp
  from Suc.hyps(1)[OF n le inv(2), of "fst ?st"] inv(1) show ?case
    by (simp only: rest m)
qed

lemma extend_left_bounds:
  assumes "best_ok alo ahi blo bhi best"
  shows "best_ok alo ahi blo bhi (extend_left junk a b alo blo best)"
  using assms
proof (induction junk a b alo blo best rule: extend_left.induct)
  case (1 junk a b alo blo besti bestj bestsize)
  show ?case
  proof (cases "alo < besti \<and> blo < bestj \<and> isbjunk (b ! (bestj - 1)) = junk
         \<and> a ! (besti - 1) = b ! (bestj - 1)")
    case True
    have "best_ok alo ahi blo bhi (besti - 1, bestj - 1, bestsize + 1)"
      using True "1.prems" by (auto simp: best_ok_def split: if_splits)
    from "1.IH"[OF True this] show ?thesis
      by (subst extend_left.simps, subst if_P[OF True])
  next
    case False
    have "extend_left junk a b alo blo (besti, bestj, bestsize) = (besti, bestj, bestsize)"
      by (subst extend_left.simps, subst if_not_P[OF False], rule refl)
    with "1.prems" show ?thesis by simp
  qed
qed

lemma extend_right_bounds:
  assumes "best_ok alo ahi blo bhi best"
  shows "best_ok alo ahi blo bhi (extend_right junk a b ahi bhi best)"
  using assms
proof (induction junk a b ahi bhi best rule: extend_right.induct)
  case (1 junk a b ahi bhi besti bestj bestsize)
  show ?case
  proof (cases "besti + bestsize < ahi \<and> bestj + bestsize < bhi
         \<and> isbjunk (b ! (bestj + bestsize)) = junk
         \<and> a ! (besti + bestsize) = b ! (bestj + bestsize)")
    case True
    have "best_ok alo ahi blo bhi (besti, bestj, bestsize + 1)"
      using True "1.prems" by (auto simp: best_ok_def split: if_splits)
    from "1.IH"[OF True this] show ?thesis
      by (subst extend_right.simps, subst if_P[OF True])
  next
    case False
    have "extend_right junk a b ahi bhi (besti, bestj, bestsize) = (besti, bestj, bestsize)"
      by (subst extend_right.simps, subst if_not_P[OF False], rule refl)
    with "1.prems" show ?thesis by simp
  qed
qed

lemma find_longest_match_ok:
  "best_ok alo ahi blo bhi (find_longest_match a b b2j alo ahi blo bhi)"
proof -
  have "best_ok alo ahi blo bhi (fst (flm_outer a b2j blo bhi [alo..<ahi] ((alo, blo, 0), Map.empty)))"
    by (rule flm_outer_bounds) (simp_all add: j2len_ok_def best_ok_def)
  then show ?thesis
    unfolding find_longest_match_def
    by (intro extend_right_bounds extend_left_bounds)
qed

lemma find_longest_match_bounds:
  assumes "find_longest_match a b b2j alo ahi blo bhi = (i, j, k)"
  shows "alo \<le> i \<and> blo \<le> j \<and> (0 < k \<longrightarrow> i + k \<le> ahi \<and> j + k \<le> bhi)"
  using find_longest_match_ok[of alo ahi blo bhi a b b2j] assms
  by (auto simp: best_ok_def)


text \<open>
  The loop of \<^verbatim>\<open>get_matching_blocks\<close>. \<^verbatim>\<open>queue\<close> is used as a stack
  (\<^verbatim>\<open>append\<close> and \<^verbatim>\<open>pop\<close> at the end); its top is the head of the list.
\<close>

function blocks_loop ::
  "string \<Rightarrow> string \<Rightarrow> (char \<rightharpoonup> nat list) \<Rightarrow> (nat \<times> nat \<times> nat \<times> nat) list \<Rightarrow>
   (nat \<times> nat \<times> nat) list \<Rightarrow> (nat \<times> nat \<times> nat) list" where
  "blocks_loop a b b2j [] matching_blocks = matching_blocks"
| "blocks_loop a b b2j ((alo, ahi, blo, bhi) # queue) matching_blocks =
     (case find_longest_match a b b2j alo ahi blo bhi of (i, j, k) \<Rightarrow>
        if k \<noteq> 0
        then blocks_loop a b b2j
               ((if i + k < ahi \<and> j + k < bhi then [(i + k, ahi, j + k, bhi)] else []) @
                (if alo < i \<and> blo < j then [(alo, i, blo, j)] else []) @ queue)
               (matching_blocks @ [(i, j, k)])
        else blocks_loop a b b2j queue matching_blocks)"
  by pat_completeness auto
termination
  apply (relation "measure (\<lambda>(a, b, b2j, queue, mb).
          sum_list (map (\<lambda>(alo, ahi, blo, bhi). 2 * (ahi - alo) + 1) queue))")
  apply simp
  subgoal for a b b2j alo ahi blo bhi queue mb i y j k
    using find_longest_match_bounds[of a b b2j alo ahi blo bhi i j k] by auto
  subgoal by simp
  done

declare blocks_loop.simps [simp del]

fun collapse_step ::
  "nat \<times> nat \<times> nat \<Rightarrow> (nat \<times> nat \<times> nat) \<times> (nat \<times> nat \<times> nat) list \<Rightarrow>
   (nat \<times> nat \<times> nat) \<times> (nat \<times> nat \<times> nat) list" where
  "collapse_step (i2, j2, k2) ((i1, j1, k1), non_adjacent) =
     (if i1 + k1 = i2 \<and> j1 + k1 = j2 then ((i1, j1, k1 + k2), non_adjacent)
      else ((i2, j2, k2), if k1 \<noteq> 0 then non_adjacent @ [(i1, j1, k1)] else non_adjacent))"

definition get_matching_blocks :: "string \<Rightarrow> string \<Rightarrow> (nat \<times> nat \<times> nat) list" where
  "get_matching_blocks a b =
     (let la = length a; lb = length b;
          matching_blocks = sort (blocks_loop a b (chain_b b) [(0, la, 0, lb)] [])
      in (case fold collapse_step matching_blocks ((0, 0, 0), []) of
            ((i1, j1, k1), non_adjacent) \<Rightarrow>
              (if k1 \<noteq> 0 then non_adjacent @ [(i1, j1, k1)] else non_adjacent) @ [(la, lb, 0)]))"

definition calculate_ratio :: "nat \<Rightarrow> nat \<Rightarrow> rat" where
  "calculate_ratio matches len = (if len \<noteq> 0 then 2 * of_nat matches / of_nat len else 1)"

definition ratio :: "string \<Rightarrow> string \<Rightarrow> rat" where
  "ratio a b =
     calculate_ratio (sum_list (map (\<lambda>(i, j, k). k) (get_matching_blocks a b)))
       (length a + length b)"



section \<open>Syntax trees\<close>

text \<open>
  The tree that \<^verbatim>\<open>ast.parse\<close> returns. A node keeps the attributes the analysers read
  and the list of its child nodes, in the order of \<^verbatim>\<open>ast.iter_child_nodes\<close>. For a
  function definition these are its name, \<^verbatim>\<open>lineno\<close>, \<^verbatim>\<open>end_lineno\<close>,
  \<^verbatim>\<open>len(node.args.args)\<close>, the result of \<^verbatim>\<open>ast.get_docstring(node)\<close> and the result
  of \<^verbatim>\<open>ast.get_source_segment(code, node)\<close>. Node types that no analyser tests for
  (asynchronous definitions, expressions, operators, ...) are \<open>Other\<close>.
\<close>

record fdef =
  fd_name :: string
  fd_lineno :: int
  fd_end_lineno :: int
  fd_n_args :: nat
  fd_docstring :: "string option"
  fd_source :: "string option"

record cdef =
  cd_name :: string
  cd_lineno :: int
  cd_docstring :: "string option"

datatype node =
    Module "node list"
  | FunctionDef fdef "node list"
  | ClassDef cdef "node list"
  | Import
  | ImportFrom
  | If "node list"
  | While "node list"
  | For "node list"
  | ExceptHandler "node list"
  | With "node list"
  | BoolOp "node list"
  | Other "node list"

text \<open>
  \<^verbatim>\<open>ast.iter_child_nodes\<close>. A \<^verbatim>\<open>BoolOp\<close> has its operator node (\<^verbatim>\<open>And\<close> or
  \<^verbatim>\<open>Or\<close>) as first child, then its operands \<^verbatim>\<open>values\<close>.
\<close>

fun children :: "node \<Rightarrow> node list" where
  "children (Module cs) = cs"
| "children (FunctionDef f cs) = cs"
| "children (ClassDef c cs) = cs"
| "children Import = []"
| "children ImportFrom = []"
| "children (If cs) = cs"
| "children (While cs) = cs"
| "children (For cs) = cs"
| "children (ExceptHandler cs) = cs"
| "children (With cs) = cs"
| "children (BoolOp vs) = Other [] # vs"
| "children (Other cs) = cs"

fun node_weight :: "node \<Rightarrow> nat" where
  "node_weight (Module cs) = Suc (sum_list (map node_weight cs))"
| "node_weight (FunctionDef f cs) = Suc (sum_list (map node_weight cs))"
| "node_weight (ClassDef c cs) = Suc (sum_list (map node_weight cs))"
| "node_weight Import = 1"
| "node_weight ImportFrom = 1"
| "node_weight (If cs) = Suc (sum_list (map node_weight cs))"
| "node_weight (While cs) = Suc (sum_list (map node_weight cs))"
| "node_weight (For cs) = Suc (sum_list (map node_weight cs))"
| "node_weight (ExceptHandler cs) = Suc (sum_list (map node_weight cs))"
| "node_weight (With cs) = Suc (sum_list (map node_weight cs))"
| "node_weight (BoolOp vs) = Suc (Suc (sum_list (map node_weight vs)))"
| "node_weight (Other cs) = Suc (sum_list (map node_weight cs))"

lemma node_weight_children: "sum_list (map node_weight (children n)) < node_weight n"
  by (cases n) simp_all

lemma node_weight_child: "c \<in> set (children n) \<Longrightarrow> node_weight c < node_weight n"
  using node_weight_children[of n] member_le_sum_list[of "node_weight c" "map node_weight (children n)"]
  by auto

text \<open>
  \<^verbatim>\<open>ast.walk\<close>: breadth first, with a queue \<^verbatim>\<open>todo\<close>; a node is yielded when it is
  taken from the front and its children are appended at the back.
\<close>

function walk_todo :: "node list \<Rightarrow> node list" where
  "walk_todo [] = []"
| "walk_todo (n # todo) = n # walk_todo (todo @ children n)"
  by pat_completeness auto
termination
  by (relation "measure (\<lambda>todo. sum_list (map node_weight todo))")
    (use node_weight_children in \<open>auto simp: add.commute\<close>)

definition walk :: "node \<Rightarrow> node list" where
  "walk n = walk_todo [n]"

text \<open>The nodes of a tree, the root and every descendant, listed depth first.\<close>

function subnodes :: "node \<Rightarrow> node list" where
  "subnodes n = n # concat (map subnodes (children n))"
  by pat_completeness auto
termination
  by (relation "measure node_weight") (auto simp: node_weight_child)

declare subnodes.simps [simp del]


section \<open>The library and the file system\<close>

text \<open>
  What the analysers take from outside the repository: the parser \<^verbatim>\<open>ast.parse\<close>
  (\<open>None\<close> stands for a \<^verbatim>\<open>SyntaxError\<close>), \<^verbatim>\<open>Path(p).stem\<close> and
  \<^verbatim>\<open>os.path.exists\<close>. They are parameters of the model.
\<close>

record env =
  ast_parse :: "string \<Rightarrow> node option"
  path_stem :: "string \<Rightarrow> string"
  path_exists :: "string \<Rightarrow> bool"

datatype py_error = SyntaxError

section \<open>duplicate\_detector.py\<close>

record detector =
  dd_code :: string
  dd_min_function_lines :: int
  dd_tree :: "node option"

definition DuplicateCodeDetector :: "env \<Rightarrow> string \<Rightarrow> int \<Rightarrow> detector" where
  "DuplicateCodeDetector e code min_function_lines =
     \<lparr>dd_code = code, dd_min_function_lines = min_function_lines, dd_tree = ast_parse e code\<rparr>"

record func_entry =
  fe_name :: string
  fe_code :: string
  fe_normalized :: string
  fe_line :: int

record duplicate =
  function1 :: string
  function2 :: string
  similarity :: rat
  line1 :: int
  line2 :: int

record duplication_result =
  duplicate_pairs :: nat
  duplicates :: "duplicate list"
  duplication_percent :: rat
  severity :: string

definition empty_result :: duplication_result where
  "empty_result = \<lparr>duplicate_pairs = 0, duplicates = [], duplication_percent = 0, severity = ''none''\<rparr>"

definition normalize_code :: "string \<Rightarrow> string" where
  "normalize_code code =
     lower (join_nl (map strip (filter (\<lambda>line. strip line \<noteq> []) (split_nl code))))"

definition calculate_similarity :: "string \<Rightarrow> string \<Rightarrow> rat" where
  "calculate_similarity code1 code2 = ratio code1 code2"

definition calculate_severity :: "nat \<Rightarrow> rat \<Rightarrow> string" where
  "calculate_severity pairs percent =
     (if pairs = 0 then ''none''
      else if pairs \<le> 2 \<and> percent < 30 then ''low''
      else if pairs \<le> 5 \<or> percent < 50 then ''medium''
      else ''high'')"

text \<open>One pass of the loop of \<^verbatim>\<open>detect\<close> that extracts the functions to compare.\<close>

fun extract_step :: "int \<Rightarrow> node \<Rightarrow> func_entry list \<Rightarrow> func_entry list" where
  "extract_step min_function_lines (FunctionDef f cs) functions =
     (if startswith (fd_name f) ''test_'' then functions
      else (case fd_source f of
              None \<Rightarrow> functions
            | Some func_code \<Rightarrow>
                if func_code = [] then functions
                else (let lines = filter (\<lambda>line. strip line \<noteq> []
                                            \<and> \<not> startswith (strip line) ''def'')
                                    (split_nl func_code)
                      in if min_function_lines \<le> int (length lines)
                         then functions @
                                [\<lparr>fe_name = fd_name f, fe_code = func_code,
                                  fe_normalized = normalize_code func_code,
                                  fe_line = fd_lineno f\<rparr>]
                         else functions)))"
| "extract_step min_function_lines n functions = functions"

definition extract_functions :: "int \<Rightarrow> node \<Rightarrow> func_entry list" where
  "extract_functions min_function_lines tree = fold (extract_step min_function_lines) (walk tree) []"

text \<open>
  The body of the two nested \<^verbatim>\<open>for\<close> loops; the state is the list \<^verbatim>\<open>duplicates\<close> and
  the set \<^verbatim>\<open>duplicate_function_names\<close>.
\<close>

definition compare_step ::
  "func_entry list \<Rightarrow> nat \<Rightarrow> nat \<Rightarrow> duplicate list \<times> string set \<Rightarrow> duplicate list \<times> string set" where
  "compare_step functions i j st =
     (case st of (dups, dup_names) \<Rightarrow>
        (let sim = calculate_similarity (fe_normalized (functions ! i)) (fe_normalized (functions ! j))
         in if 3 / 4 \<le> sim
            then (dups @ [\<lparr>function1 = fe_name (functions ! i), function2 = fe_name (functions ! j),
                           similarity = py_round (sim * 100) 1,
                           line1 = fe_line (functions ! i), line2 = fe_line (functions ! j)\<rparr>],
                  insert (fe_name (functions ! j)) (insert (fe_name (functions ! i)) dup_names))
            else (dups, dup_names)))"

definition find_duplicates :: "func_entry list \<Rightarrow> duplicate list \<times> string set" where
  "find_duplicates functions =
     fold (\<lambda>i. fold (compare_step functions i) [i + 1..<length functions])
       [0..<length functions] ([], {})"

definition detect :: "detector \<Rightarrow> duplication_result" where
  "detect self =
     (case dd_tree self of
        None \<Rightarrow> empty_result
      | Some tree \<Rightarrow>
          (let functions = extract_functions (dd_min_function_lines self) tree
           in (case find_duplicates functions of (dups, dup_names) \<Rightarrow>
                 (let total_functions = (if functions \<noteq> [] then length functions else 1);
                      percent = of_nat (card dup_names) / of_nat total_functions * 100
                  in \<lparr>duplicate_pairs = length dups, duplicates = dups,
                      duplication_percent = py_round percent 1,
                      severity = calculate_severity (length dups) percent\<rparr>))))"

definition DuplicateCodeDetector_analyze :: "detector \<Rightarrow> duplication_result" where
  "DuplicateCodeDetector_analyze self =
     (case dd_tree self of
        None \<Rightarrow> empty_result
      | Some tree \<Rightarrow>
          (let d = detect self
           in \<lparr>duplicate_pairs = duplicate_pairs d, duplicates = duplicates d,
               duplication_percent = duplication_percent d, severity = severity d\<rparr>))"

section \<open>coverage\_analyzer.py\<close>

record fn_def =
  fn_name :: string
  fn_line :: int
  fn_is_test :: bool

record cls_def =
  cls_name :: string
  cls_line :: int

record coverage_analyzer =
  ca_code :: string
  ca_filepath :: string
  ca_tree :: node
  ca_functions :: "fn_def list"
  ca_classes :: "cls_def list"

fun extract_definitions_step :: "node \<Rightarrow> coverage_analyzer \<Rightarrow> coverage_analyzer" where
  "extract_definitions_step (FunctionDef f cs) self =
     self\<lparr>ca_functions := ca_functions self @
             [\<lparr>fn_name = fd_name f, fn_line = fd_lineno f,
               fn_is_test = startswith (fd_name f) ''test_''\<rparr>]\<rparr>"
| "extract_definitions_step (ClassDef c cs) self =
     self\<lparr>ca_classes := ca_classes self @ [\<lparr>cls_name = cd_name c, cls_line = cd_lineno c\<rparr>]\<rparr>"
| "extract_definitions_step n self = self"

definition extract_definitions :: "coverage_analyzer \<Rightarrow> coverage_analyzer" where
  "extract_definitions self = fold extract_definitions_step (walk (ca_tree self)) self"

text \<open>The constructor: its call of \<^verbatim>\<open>ast.parse\<close> is not guarded.\<close>

definition CoverageAnalyzer :: "env \<Rightarrow> string \<Rightarrow> string \<Rightarrow> py_error + coverage_analyzer" where
  "CoverageAnalyzer e code filepath =
     (case ast_parse e code of
        None \<Rightarrow> Inl SyntaxError
      | Some tree \<Rightarrow>
          Inr (extract_definitions
                 \<lparr>ca_code = code, ca_filepath = filepath, ca_tree = tree,
                  ca_functions = [], ca_classes = []\<rparr>))"

definition check_test_file_exists :: "env \<Rightarrow> coverage_analyzer \<Rightarrow> bool" where
  "check_test_file_exists e self =
     (if ca_filepath self = [] \<or> ca_filepath self = ''code.py'' then False
      else (let base_name = path_stem e (ca_filepath self);
                test_file_patterns =
                  [''tests/test_'' @ base_name @ ''.py'', ''test_'' @ base_name @ ''.py'',
                   base_name @ ''_test.py'']
            in list_ex (path_exists e) test_file_patterns))"

definition check_test_presence :: "env \<Rightarrow> coverage_analyzer \<Rightarrow> bool" where
  "check_test_presence e self =
     (let has_tests_in_file = list_ex fn_is_test (ca_functions self);
          has_test_file = check_test_file_exists e self
      in has_tests_in_file \<or> has_test_file)"

definition estimate_coverage :: "env \<Rightarrow> coverage_analyzer \<Rightarrow> rat" where
  "estimate_coverage e self =
     (if check_test_presence e self
      then (let test_functions = length (filter fn_is_test (ca_functions self));
                non_test_functions = length (ca_functions self) - test_functions
            in if non_test_functions = 0 then (if 0 < test_functions then 100 else 0)
               else (let coverage_ratio = min (of_nat test_functions / of_nat non_test_functions) 1
                     in py_round (coverage_ratio * 100) 1))
      else 0)"

definition get_coverage_level :: "rat \<Rightarrow> string" where
  "get_coverage_level cov =
     (if 80 \<le> cov then ''excellent''
      else if 60 \<le> cov then ''good''
      else if 40 \<le> cov then ''moderate''
      else if 0 < cov then ''low''
      else ''none'')"

text \<open>
  The recommendation texts: "Add unit tests to verify code functionality", "Create tests/
  directory with test files", "Improve test coverage (current: c\%, target: 80\%+)" and
  "Add tests for untested functions".
\<close>

datatype recommendation =
    AddUnitTests
  | CreateTestsDirectory
  | ImproveTestCoverage rat
  | AddTestsForUntested

definition generate_recommendations :: "bool \<Rightarrow> rat \<Rightarrow> recommendation list" where
  "generate_recommendations has_tests_flag cov =
     (if \<not> has_tests_flag then [AddUnitTests, CreateTestsDirectory]
      else if cov < 60 then [ImproveTestCoverage cov, AddTestsForUntested]
      else [])"

record coverage_result =
  has_tests :: bool
  coverage_estimate :: rat
  test_count :: nat
  function_count :: nat
  test_ratio :: rat
  coverage_level :: string
  recommendations :: "recommendation list"

definition CoverageAnalyzer_analyze :: "env \<Rightarrow> coverage_analyzer \<Rightarrow> coverage_result" where
  "CoverageAnalyzer_analyze e self =
     (let has_tests_flag = check_test_presence e self;
          cov = estimate_coverage e self;
          test_functions = filter fn_is_test (ca_functions self);
          non_test_functions = filter (\<lambda>f. \<not> fn_is_test f) (ca_functions self)
      in \<lparr>has_tests = has_tests_flag, coverage_estimate = cov,
          test_count = length test_functions, function_count = length non_test_functions,
          test_ratio = (if non_test_functions \<noteq> []
                        then py_round (of_nat (length test_functions) / of_nat (length non_test_functions)) 2
                        else 0),
          coverage_level = get_coverage_level cov,
          recommendations = generate_recommendations has_tests_flag cov\<rparr>)"


section \<open>metrics.py\<close>

record code_metrics =
  cm_code :: string
  cm_filename :: string
  cm_tree :: "node option"

definition CodeMetrics :: "env \<Rightarrow> string \<Rightarrow> string \<Rightarrow> code_metrics" where
  "CodeMetrics e code filename = \<lparr>cm_code = code, cm_filename = filename, cm_tree = ast_parse e code\<rparr>"

record names_info =
  ni_count :: nat
  ni_names :: "string list"

record complex_function =
  cf_name :: string
  cf_complexity :: int
  cf_line :: int

record complexity_result =
  cx_average :: rat
  cx_maximum :: int
  cx_complex_functions :: "complex_function list"

record docstring_result =
  total_functions :: nat
  functions_documented :: nat
  total_classes :: nat
  classes_documented :: nat
  coverage_percent :: rat

text \<open>
  The messages of the style issues: "Function f is too long (n lines)" and
  "Function f has too many parameters (n)".
\<close>

datatype issue_message = TooLong string int | TooManyParameters string nat

record style_issue =
  si_line :: int
  si_message :: issue_message

record code_style_result =
  issues_count :: nat
  issues :: "style_issue list"

text \<open>
  The \<^verbatim>\<open>coverage\<close> entry of a report is the result of the coverage analyser, or, in the
  report for unparsable text, a dictionary with the keys \<^verbatim>\<open>has_tests\<close>,
  \<^verbatim>\<open>test_functions\<close>, \<^verbatim>\<open>coverage_estimate\<close> and \<^verbatim>\<open>coverage_level\<close>.
\<close>

datatype coverage_entry =
    Coverage coverage_result
  | EmptyCoverage bool nat rat string

fun entry_coverage_estimate :: "coverage_entry \<Rightarrow> rat" where
  "entry_coverage_estimate (Coverage r) = coverage_estimate r"
| "entry_coverage_estimate (EmptyCoverage h t c l) = c"

record score_breakdown =
  sb_documentation :: rat
  sb_complexity :: rat
  sb_code_style :: rat
  sb_structure :: rat
  sb_duplication :: rat
  sb_test_coverage :: rat

record score =
  total :: rat
  letter_grade :: string
  breakdown :: score_breakdown

record metrics =
  filename :: string
  total_lines :: nat
  code_lines :: nat
  functions_info :: names_info
  classes_info :: names_info
  imports_count :: nat
  complexity :: complexity_result
  docstrings :: docstring_result
  code_style :: code_style_result
  duplication :: duplication_result
  coverage :: coverage_entry

record report = metrics +
  overall_score :: score

definition count_code_lines :: "code_metrics \<Rightarrow> nat" where
  "count_code_lines self =
     fold (\<lambda>line n. (let stripped = strip line
                      in if stripped \<noteq> [] \<and> \<not> startswith stripped ''#'' then n + 1 else n))
       (split_nl (cm_code self)) 0"

text \<open>
  The methods below read \<^verbatim>\<open>self.tree\<close>; \<^verbatim>\<open>analyze\<close> calls them once it has checked
  that the tree is there, so they take the tree.

  \<open>function_defs\<close> is \<^verbatim>\<open>[node for node in ast.walk(tree) if isinstance(node,
  ast.FunctionDef)]\<close>, each node with its attributes; \<open>class_defs\<close> likewise.
\<close>

fun as_function :: "node \<Rightarrow> (fdef \<times> node) option" where
  "as_function (FunctionDef f cs) = Some (f, FunctionDef f cs)"
| "as_function n = None"

fun as_class :: "node \<Rightarrow> cdef option" where
  "as_class (ClassDef c cs) = Some c"
| "as_class n = None"

fun is_import :: "node \<Rightarrow> bool" where
  "is_import Import = True"
| "is_import ImportFrom = True"
| "is_import n = False"

definition function_defs :: "node \<Rightarrow> (fdef \<times> node) list" where
  "function_defs tree = List.map_filter as_function (walk tree)"

definition class_defs :: "node \<Rightarrow> cdef list" where
  "class_defs tree = List.map_filter as_class (walk tree)"

definition function_info :: "node \<Rightarrow> names_info" where
  "function_info tree =
     (let fs = function_defs tree
      in \<lparr>ni_count = length fs, ni_names = map (\<lambda>(f, n). fd_name f) fs\<rparr>)"

definition class_info :: "node \<Rightarrow> names_info" where
  "class_info tree =
     (let cs = class_defs tree
      in \<lparr>ni_count = length cs, ni_names = map cd_name cs\<rparr>)"

definition import_info :: "node \<Rightarrow> nat" where
  "import_info tree = length (filter is_import (walk tree))"

fun complexity_step :: "node \<Rightarrow> int \<Rightarrow> int" where
  "complexity_step (If cs) c = c + 1"
| "complexity_step (While cs) c = c + 1"
| "complexity_step (For cs) c = c + 1"
| "complexity_step (ExceptHandler cs) c = c + 1"
| "complexity_step (With cs) c = c + 1"
| "complexity_step (BoolOp vs) c = c + (int (length vs) - 1)"
| "complexity_step n c = c"

definition calculate_complexity :: "node \<Rightarrow> int" where
  "calculate_complexity n = fold complexity_step (walk n) 1"

definition function_complexity :: "node \<Rightarrow> complexity_result" where
  "function_complexity tree =
     (let fs = filter (\<lambda>(f, n). \<not> startswith (fd_name f) ''test_'') (function_defs tree)
      in if fs = []
         then \<lparr>cx_average = 1, cx_maximum = 1, cx_complex_functions = []\<rparr>
         else (case fold (\<lambda>(f, n) (complexities, complex_funcs).
                            (let c = calculate_complexity n
                             in (complexities @ [c],
                                 if 10 < c
                                 then complex_funcs @
                                        [\<lparr>cf_name = fd_name f, cf_complexity = c, cf_line = fd_lineno f\<rparr>]
                                 else complex_funcs)))
                      fs ([], [])
               of (complexities, complex_funcs) \<Rightarrow>
                 (let avg_complexity = of_int (sum_list complexities) / of_nat (length complexities)
                  in \<lparr>cx_average = py_round avg_complexity 1,
                      cx_maximum = (case complexities of [] \<Rightarrow> 1 | c # cs \<Rightarrow> fold max cs c),
                      cx_complex_functions = complex_funcs\<rparr>)))"

text \<open>\<^verbatim>\<open>if ast.get_docstring(node)\<close>: there is a docstring and it is not empty.\<close>

definition has_docstring :: "string option \<Rightarrow> bool" where
  "has_docstring d = (case d of None \<Rightarrow> False | Some s \<Rightarrow> s \<noteq> [])"

definition check_docstrings :: "node \<Rightarrow> docstring_result" where
  "check_docstrings tree =
     (let fs = function_defs tree; cs = class_defs tree;
          functions_with_docs = length (filter (\<lambda>(f, n). has_docstring (fd_docstring f)) fs);
          classes_with_docs = length (filter (\<lambda>c. has_docstring (cd_docstring c)) cs);
          total_items = length fs + length cs;
          documented_items = functions_with_docs + classes_with_docs;
          cov = (if 0 < total_items then of_nat documented_items / of_nat total_items * 100 else 0)
      in \<lparr>total_functions = length fs, functions_documented = functions_with_docs,
          total_classes = length cs, classes_documented = classes_with_docs,
          coverage_percent = py_round cov 1\<rparr>)"

fun code_style_step :: "node \<Rightarrow> style_issue list \<Rightarrow> style_issue list" where
  "code_style_step (FunctionDef f cs) found =
     (let func_length = fd_end_lineno f - fd_lineno f;
          found1 = (if 50 < func_length
                    then found @ [\<lparr>si_line = fd_lineno f, si_message = TooLong (fd_name f) func_length\<rparr>]
                    else found)
      in if 5 < fd_n_args f
         then found1 @ [\<lparr>si_line = fd_lineno f,
                          si_message = TooManyParameters (fd_name f) (fd_n_args f)\<rparr>]
         else found1)"
| "code_style_step n found = found"

definition check_code_style :: "node \<Rightarrow> code_style_result" where
  "check_code_style tree =
     (let found = fold code_style_step (walk tree) []
      in \<lparr>issues_count = length found, issues = found\<rparr>)"

definition check_duplication :: "env \<Rightarrow> code_metrics \<Rightarrow> duplication_result" where
  "check_duplication e self = DuplicateCodeDetector_analyze (DuplicateCodeDetector e (cm_code self) 3)"

definition check_coverage :: "env \<Rightarrow> code_metrics \<Rightarrow> py_error + coverage_result" where
  "check_coverage e self =
     (case CoverageAnalyzer e (cm_code self) ''code.py'' of
        Inl err \<Rightarrow> Inl err
      | Inr analyzer \<Rightarrow> Inr (CoverageAnalyzer_analyze e analyzer))"

definition letter_grade_of :: "rat \<Rightarrow> string" where
  "letter_grade_of t =
     (if 90 \<le> t then ''A'' else if 80 \<le> t then ''B'' else if 70 \<le> t then ''C''
      else if 60 \<le> t then ''D'' else ''F'')"

definition calculate_score :: "metrics \<Rightarrow> score" where
  "calculate_score m =
     (let doc_coverage = coverage_percent (docstrings m);
          doc_score = doc_coverage / 100 * 15;
          avg_complexity = cx_average (complexity m);
          complexity_score = (if avg_complexity \<le> 5 then 20 else if avg_complexity \<le> 10 then 15
                              else if avg_complexity \<le> 15 then 10 else (5::int));
          style_issues = issues_count (code_style m);
          style_score = (if style_issues = 0 then 20 else if style_issues \<le> 3 then 15
                         else if style_issues \<le> 10 then 10 else (5::int));
          structure_score0 = (if ni_count (functions_info m) = 0 then 15 - 5 else (15::int));
          structure_score1 = (if 500 < code_lines m then structure_score0 - 5 else structure_score0);
          structure_score = max 0 structure_score1;
          percent = duplication_percent (duplication m);
          duplication_score = (if percent = 0 then 15 else if percent < 10 then 12
                               else if percent < 25 then 8 else (3::int));
          cov = entry_coverage_estimate (coverage m);
          coverage_score = (if 80 \<le> cov then 15 else if 60 \<le> cov then 12 else if 40 \<le> cov then 8
                            else if 20 \<le> cov then 5 else (0::int));
          t = py_round (doc_score + of_int complexity_score + of_int style_score
                        + of_int structure_score + of_int duplication_score + of_int coverage_score) 1
      in \<lparr>total = t, letter_grade = letter_grade_of t,
          breakdown =
            \<lparr>sb_documentation = py_round doc_score 1, sb_complexity = of_int complexity_score,
             sb_code_style = of_int style_score, sb_structure = of_int structure_score,
             sb_duplication = of_int duplication_score, sb_test_coverage = of_int coverage_score\<rparr>\<rparr>)"

definition empty_metrics :: "code_metrics \<Rightarrow> report" where
  "empty_metrics self =
     \<lparr>filename = cm_filename self, total_lines = 0, code_lines = 0,
      functions_info = \<lparr>ni_count = 0, ni_names = []\<rparr>,
      classes_info = \<lparr>ni_count = 0, ni_names = []\<rparr>,
      imports_count = 0,
      complexity = \<lparr>cx_average = 0, cx_maximum = 0, cx_complex_functions = []\<rparr>,
      docstrings = \<lparr>total_functions = 0, functions_documented = 0, total_classes = 0,
                     classes_documented = 0, coverage_percent = 0\<rparr>,
      code_style = \<lparr>issues_count = 0, issues = []\<rparr>,
      duplication = \<lparr>duplicate_pairs = 0, duplicates = [], duplication_percent = 0,
                      severity = ''none''\<rparr>,
      coverage = EmptyCoverage False 0 0 ''none'',
      overall_score =
        \<lparr>total = 0, letter_grade = ''F'',
         breakdown = \<lparr>sb_documentation = 0, sb_complexity = 0, sb_code_style = 0,
                       sb_structure = 0, sb_duplication = 0, sb_test_coverage = 0\<rparr>\<rparr>\<rparr>"

text \<open>
  \<^verbatim>\<open>CodeMetrics.analyze\<close>. The entries of the dictionary are computed in the order they are
  written; an exception raised by the coverage analyser's constructor would leave
  \<^verbatim>\<open>analyze\<close>, which the model shows as \<open>Inl\<close>.
\<close>

definition CodeMetrics_analyze :: "env \<Rightarrow> code_metrics \<Rightarrow> py_error + report" where
  "CodeMetrics_analyze e self =
     (case cm_tree self of
        None \<Rightarrow> Inr (empty_metrics self)
      | Some tree \<Rightarrow>
          (case check_coverage e self of
             Inl err \<Rightarrow> Inl err
           | Inr cov \<Rightarrow>
               (let m = \<lparr>filename = cm_filename self,
                         total_lines = length (split_nl (cm_code self)),
                         code_lines = count_code_lines self,
                         functions_info = function_info tree,
                         classes_info = class_info tree,
                         imports_count = import_info tree,
                         complexity = function_complexity tree,
                         docstrings = check_docstrings tree,
                         code_style = check_code_style tree,
                         duplication = check_duplication e self,
                         coverage = Coverage cov\<rparr>
                in Inr (metrics.extend m \<lparr>overall_score = calculate_score m\<rparr>))))"


section \<open>Sample programs\<close>

text \<open>
  Texts on which the analysers are evaluated below, each with the tree that
  \<^verbatim>\<open>ast.parse\<close> returns for it. Child nodes that no analyser tests for (arguments,
  expressions, names, contexts, \<^verbatim>\<open>pass\<close>, ...) appear as \<open>Other\<close>.
\<close>

definition src_empty :: string where
  "src_empty = ''''"

definition tree_empty :: node where
  "tree_empty = Module []"

text \<open>The text of \<^verbatim>\<open>test_invalid_syntax\<close>, which \<^verbatim>\<open>ast.parse\<close> rejects.\<close>

definition src_invalid :: string where
  "src_invalid = ''def invalid syntax here''"

definition src_dup :: string where
  "src_dup =
     ''def f():\<newline>    a\<newline>    a\<newline>    a\<newline>def g():\<newline>    a\<newline>    a\<newline>    a\<newline>def h():\<newline>    x\<newline>    y\<newline>    z''"

definition tree_dup :: node where
  "tree_dup =
     Module [FunctionDef \<lparr>fd_name = ''f'', fd_lineno = 1, fd_end_lineno = 4, fd_n_args =
       0, fd_docstring = None, fd_source = Some
       ''def f():\<newline>    a\<newline>    a\<newline>    a''\<rparr> [Other [], Other
       [Other [Other []]], Other [Other [Other []]], Other [Other [Other []]]], FunctionDef
       \<lparr>fd_name = ''g'', fd_lineno = 5, fd_end_lineno = 8, fd_n_args = 0, fd_docstring =
       None, fd_source = Some ''def g():\<newline>    a\<newline>    a\<newline>    a''\<rparr>
       [Other [], Other [Other [Other []]], Other [Other [Other []]], Other [Other [Other
       []]]], FunctionDef \<lparr>fd_name = ''h'', fd_lineno = 9, fd_end_lineno = 12, fd_n_args
       = 0, fd_docstring = None, fd_source = Some
       ''def h():\<newline>    x\<newline>    y\<newline>    z''\<rparr> [Other [], Other
       [Other [Other []]], Other [Other [Other []]], Other [Other [Other []]]]]"

definition src_cov :: string where
  "src_cov =
     ''def f(): return 1\<newline>def test_f(): assert f()==1''"

definition tree_cov :: node where
  "tree_cov =
     Module [FunctionDef \<lparr>fd_name = ''f'', fd_lineno = 1, fd_end_lineno = 1, fd_n_args =
       0, fd_docstring = None, fd_source = Some ''def f(): return 1''\<rparr> [Other [], Other
       [Other []]], FunctionDef \<lparr>fd_name = ''test_f'', fd_lineno = 2, fd_end_lineno = 2,
       fd_n_args = 0, fd_docstring = None, fd_source = Some
       ''def test_f(): assert f()==1''\<rparr> [Other [], Other [Other [Other [Other [Other
       []]], Other [], Other []]]]]"

definition src_ifs :: string where
  "src_ifs =
     ''def f(x):\<newline>    if x: x = 1\<newline>    if x: x = 2\<newline>    if x: x = 3\<newline>    return x''"

definition tree_ifs :: node where
  "tree_ifs =
     Module [FunctionDef \<lparr>fd_name = ''f'', fd_lineno = 1, fd_end_lineno = 5, fd_n_args =
       1, fd_docstring = None, fd_source = Some
       ''def f(x):\<newline>    if x: x = 1\<newline>    if x: x = 2\<newline>    if x: x = 3\<newline>    return x''\<rparr>
       [Other [Other []], If [Other [Other []], Other [Other [Other []], Other []]], If [Other
       [Other []], Other [Other [Other []], Other []]], If [Other [Other []], Other [Other
       [Other []], Other []]], Other [Other [Other []]]]]"

definition src_nested :: string where
  "src_nested =
     ''class C:\<newline>    def m(self):\<newline>        def inner():\<newline>            pass\<newline>def test_x():\<newline>    pass''"

definition tree_nested :: node where
  "tree_nested =
     Module [ClassDef \<lparr>cd_name = ''C'', cd_lineno = 1, cd_docstring = None\<rparr>
       [FunctionDef \<lparr>fd_name = ''m'', fd_lineno = 2, fd_end_lineno = 4, fd_n_args = 1,
       fd_docstring = None, fd_source = Some
       ''def m(self):\<newline>        def inner():\<newline>            pass''\<rparr> [Other
       [Other []], FunctionDef \<lparr>fd_name = ''inner'', fd_lineno = 3, fd_end_lineno = 4,
       fd_n_args = 0, fd_docstring = None, fd_source = Some
       ''def inner():\<newline>            pass''\<rparr> [Other [], Other []]]], FunctionDef
       \<lparr>fd_name = ''test_x'', fd_lineno = 5, fd_end_lineno = 6, fd_n_args = 0,
       fd_docstring = None, fd_source = Some ''def test_x():\<newline>    pass''\<rparr> [Other
       [], Other []]]"

text \<open>
  An environment for the samples: the parser on the sample texts (any other text is taken
  as unparsable, and none is used), the stem of a plain file name, and a directory without
  test files.
\<close>

definition sample_env :: env where
  "sample_env =
     \<lparr>ast_parse = map_of [(src_empty, tree_empty), (src_dup, tree_dup), (src_cov, tree_cov),
                            (src_ifs, tree_ifs), (src_nested, tree_nested)],
      path_stem = takeWhile (\<lambda>c. c \<noteq> CHR ''.''),
      path_exists = (\<lambda>p. False)\<rparr>"


section \<open>Rounding\<close>

lemma py_round_of_int [simp]: "py_round (of_int z) n = of_int z"
proof -
  have "(of_int z :: rat) * 10 ^ n = of_int (z * 10 ^ n)" by simp
  then show ?thesis
    unfolding py_round_def Let_def by (simp only: floor_of_int) simp
qed

lemma py_round_0 [simp]: "py_round 0 n = 0"
  using py_round_of_int[of 0 n] by simp

lemma py_round_numeral [simp]: "py_round (numeral k) n = numeral k"
  using py_round_of_int[of "numeral k" n] by simp

section \<open>Empty and unparsable text\<close>

text \<open>The values of a report that the claims about empty and unparsable text name:
  \<^verbatim>\<open>total_lines\<close>, \<^verbatim>\<open>code_lines\<close>, \<^verbatim>\<open>functions.count\<close>, \<^verbatim>\<open>overall_score.total\<close> and
  \<^verbatim>\<open>letter_grade\<close>.\<close>

definition report_summary :: "report \<Rightarrow> nat \<times> nat \<times> nat \<times> rat \<times> string" where
  "report_summary r =
     (total_lines r, code_lines r, ni_count (functions_info r), total (overall_score r),
      letter_grade (overall_score r))"

lemma walk_leaf: "children n = [] \<Longrightarrow> walk n = [n]"
  by (simp add: walk_def)

lemma analyze_empty_module:
  assumes "ast_parse e [] = Some (Module [])"
  shows "map_sum id report_summary (CodeMetrics_analyze e (CodeMetrics e [] fn))
         = Inr (1, 0, 0, 65, ''D'')"
  using assms
  by (simp add: CodeMetrics_analyze_def CodeMetrics_def check_coverage_def CoverageAnalyzer_def
      extract_definitions_def walk_leaf report_summary_def metrics.defs
      count_code_lines_def strip_def function_info_def function_defs_def
      class_info_def class_defs_def import_info_def function_complexity_def check_docstrings_def
      check_code_style_def check_duplication_def DuplicateCodeDetector_analyze_def
      DuplicateCodeDetector_def detect_def extract_functions_def find_duplicates_def
      calculate_severity_def CoverageAnalyzer_analyze_def check_test_presence_def
      check_test_file_exists_def estimate_coverage_def get_coverage_level_def
      generate_recommendations_def calculate_score_def letter_grade_of_def Let_def)

lemma analyze_unparsable:
  assumes "cm_tree self = None"
  shows "CodeMetrics_analyze e self = Inr (empty_metrics self)"
  using assms by (simp add: CodeMetrics_analyze_def)

lemma sample_parse_empty: "ast_parse sample_env src_empty = Some tree_empty"
  by (simp add: sample_env_def)

lemma sample_parse_invalid: "ast_parse sample_env src_invalid = None"
  by (simp add: sample_env_def src_invalid_def src_empty_def src_dup_def src_cov_def src_ifs_def
      src_nested_def)

text \<open>
  C1 (as amended). For the empty text, which parses to a module without statements,
  \<^verbatim>\<open>CodeMetrics.analyze\<close> returns a report with \<^verbatim>\<open>total_lines == 1\<close>,
  \<^verbatim>\<open>code_lines == 0\<close>, \<^verbatim>\<open>functions.count == 0\<close>, \<^verbatim>\<open>overall_score.total == 65.0\<close> and
  \<^verbatim>\<open>letter_grade == 'D'\<close>: the score is computed as for any parsable text (complexity 20,
  code style 20, structure 10, duplication 15, documentation and test coverage 0).
\<close>

theorem empty_text_report:
  assumes "ast_parse e src_empty = Some tree_empty"
  shows "map_sum id report_summary (CodeMetrics_analyze e (CodeMetrics e src_empty fn))
         = Inr (1, 0, 0, 65, ''D'')"
  using assms analyze_empty_module[of e fn] by (simp add: src_empty_def tree_empty_def)

theorem empty_text_report_witness:
  "ast_parse sample_env src_empty = Some tree_empty \<and>
   map_sum id report_summary (CodeMetrics_analyze sample_env (CodeMetrics sample_env src_empty ''test.py''))
     = Inr (1, 0, 0, 65, ''D'')"
  using empty_text_report[OF sample_parse_empty, of "''test.py''"] sample_parse_empty by simp

text \<open>
  C1 as stated fails: for the empty text the total is not \<open>0.0\<close> and the grade is not
  \<open>F\<close>.
\<close>

theorem empty_text_report_counterexample:
  "map_sum id report_summary (CodeMetrics_analyze sample_env (CodeMetrics sample_env src_empty ''test.py''))
     \<noteq> Inr (1, 0, 0, 0, ''F'')"
proof -
  have "ast_parse sample_env [] = Some (Module [])"
    using sample_parse_empty by (simp add: src_empty_def tree_empty_def)
  from analyze_empty_module[OF this, of "''test.py''"] show ?thesis
    by (simp add: src_empty_def)
qed

text \<open>
  C2 (as amended). For every unparsable text \<^verbatim>\<open>CodeMetrics.analyze\<close> raises no exception and
  returns the report of \<^verbatim>\<open>_empty_metrics\<close>: all counts 0, \<^verbatim>\<open>total_lines\<close> 0, total
  score 0.0, grade \<open>F\<close>. It is not the report returned for the empty text.
\<close>

theorem unparsable_text_report:
  assumes "ast_parse e code = None"
  shows "\<exists>r. CodeMetrics_analyze e (CodeMetrics e code fn) = Inr r
           \<and> r = empty_metrics (CodeMetrics e code fn)
           \<and> report_summary r = (0, 0, 0, 0, ''F'')
           \<and> ni_count (classes_info r) = 0 \<and> imports_count r = 0
           \<and> issues_count (code_style r) = 0 \<and> duplicate_pairs (duplication r) = 0
           \<and> total_functions (docstrings r) = 0 \<and> total_classes (docstrings r) = 0
           \<and> entry_coverage_estimate (coverage r) = 0"
proof -
  have "cm_tree (CodeMetrics e code fn) = None"
    using assms by (simp add: CodeMetrics_def)
  then have "CodeMetrics_analyze e (CodeMetrics e code fn) = Inr (empty_metrics (CodeMetrics e code fn))"
    by (rule analyze_unparsable)
  then show ?thesis
    by (simp add: empty_metrics_def report_summary_def)
qed

theorem unparsable_text_report_witness:
  "ast_parse sample_env src_invalid = None \<and>
   CodeMetrics_analyze sample_env (CodeMetrics sample_env src_invalid ''test.py'')
     = Inr (empty_metrics (CodeMetrics sample_env src_invalid ''test.py'')) \<and>
   report_summary (empty_metrics (CodeMetrics sample_env src_invalid ''test.py''))
     = (0, 0, 0, 0, ''F'')"
  using unparsable_text_report[OF sample_parse_invalid, of "''test.py''"] sample_parse_invalid
  by auto

text \<open>
  C2 as stated fails: the report for the unparsable text \<^verbatim>\<open>def invalid syntax here\<close> is not
  the report for the empty text.
\<close>

theorem unparsable_text_report_counterexample:
  "CodeMetrics_analyze sample_env (CodeMetrics sample_env src_invalid ''test.py'')
     \<noteq> CodeMetrics_analyze sample_env (CodeMetrics sample_env src_empty ''test.py'')"
proof
  assume eq: "CodeMetrics_analyze sample_env (CodeMetrics sample_env src_invalid ''test.py'')
     = CodeMetrics_analyze sample_env (CodeMetrics sample_env src_empty ''test.py'')"
  have "cm_tree (CodeMetrics sample_env src_invalid ''test.py'') = None"
    using sample_parse_invalid by (simp add: CodeMetrics_def)
  from analyze_unparsable[OF this, of sample_env]
  have l: "map_sum id report_summary
             (CodeMetrics_analyze sample_env (CodeMetrics sample_env src_invalid ''test.py''))
           = Inr (0, 0, 0, 0, ''F'')"
    by (simp add: empty_metrics_def report_summary_def)
  have "ast_parse sample_env [] = Some (Module [])"
    using sample_parse_empty by (simp add: src_empty_def tree_empty_def)
  from analyze_empty_module[OF this, of "''test.py''"]
  have r: "map_sum id report_summary
             (CodeMetrics_analyze sample_env (CodeMetrics sample_env src_empty ''test.py''))
           = Inr (1, 0, 0, 65, ''D'')"
    by (simp add: src_empty_def)
  from l r eq show False by simp
qed

section \<open>The unguarded parse of the coverage analyser\<close>

text \<open>
  C10. Constructing a \<^verbatim>\<open>CoverageAnalyzer\<close> on unparsable text raises the parser's
  exception, and on parsable text it returns an analyser. \<^verbatim>\<open>CodeMetrics.analyze\<close> never
  raises it: on unparsable text it returns the empty report without constructing a
  \<^verbatim>\<open>CoverageAnalyzer\<close>, and otherwise the text has already been parsed.
\<close>

theorem coverage_constructor_unguarded:
  "(ast_parse e code = None \<longrightarrow> CoverageAnalyzer e code filepath = Inl SyntaxError)
   \<and> (ast_parse e code \<noteq> None \<longrightarrow> (\<exists>a. CoverageAnalyzer e code filepath = Inr a))
   \<and> (\<exists>r. CodeMetrics_analyze e (CodeMetrics e code fn) = Inr r)
   \<and> (ast_parse e code = None \<longrightarrow>
        CodeMetrics_analyze e (CodeMetrics e code fn) = Inr (empty_metrics (CodeMetrics e code fn)))"
  by (auto simp: CoverageAnalyzer_def CodeMetrics_analyze_def CodeMetrics_def check_coverage_def
      Let_def split: option.splits)

theorem coverage_constructor_unguarded_witness:
  "CoverageAnalyzer sample_env src_invalid ''code.py'' = Inl SyntaxError \<and>
   CodeMetrics_analyze sample_env (CodeMetrics sample_env src_invalid ''code.py'')
     = Inr (empty_metrics (CodeMetrics sample_env src_invalid ''code.py''))"
  using coverage_constructor_unguarded[of sample_env src_invalid "''code.py''" "''code.py''"]
    sample_parse_invalid
  by simp

section \<open>The tree walk and the extractor\<close>

lemma mset_walk_todo: "mset (walk_todo q) = mset (concat (map subnodes q))"
proof (induction q rule: walk_todo.induct)
  case 1
  show ?case by simp
next
  case (2 n todo)
  have sn: "subnodes n = n # concat (map subnodes (children n))"
    by (rule subnodes.simps)
  have "mset (walk_todo (n # todo)) = add_mset n (mset (walk_todo (todo @ children n)))"
    by simp
  also have "\<dots> = add_mset n (mset (concat (map subnodes (todo @ children n))))"
    by (simp only: 2)
  also have "\<dots> = mset (n # concat (map subnodes (children n))) + mset (concat (map subnodes todo))"
    by simp
  also have "\<dots> = mset (subnodes n) + mset (concat (map subnodes todo))"
    by (simp only: sn[symmetric])
  also have "\<dots> = mset (concat (map subnodes (n # todo)))"
    by simp
  finally show ?case .
qed

lemma mset_walk: "mset (walk n) = mset (subnodes n)"
  unfolding walk_def by (simp only: mset_walk_todo) simp

lemma set_walk: "set (walk n) = set (subnodes n)"
  using mset_walk[of n] by (metis set_mset_mset)

lemma mset_map_filter_cong:
  assumes "mset xs = mset ys"
  shows "mset (List.map_filter h xs) = mset (List.map_filter h ys)"
  using assms by (simp add: List.map_filter_def)

lemma length_filter_cong_mset:
  assumes "mset xs = mset ys"
  shows "length (filter P xs) = length (filter P ys)"
  by (metis assms mset_filter size_mset)

lemma sum_list_map_cong_mset:
  fixes w :: "'a \<Rightarrow> int"
  assumes "mset xs = mset ys"
  shows "sum_list (map w xs) = sum_list (map w ys)"
  by (metis assms mset_map sum_mset_sum_list)

text \<open>The function and class definitions anywhere in a tree.\<close>

definition fdefs_in :: "node \<Rightarrow> fdef list" where
  "fdefs_in tree = map fst (List.map_filter as_function (subnodes tree))"

definition cdefs_in :: "node \<Rightarrow> cdef list" where
  "cdefs_in tree = List.map_filter as_class (subnodes tree)"

definition fn_def_of :: "fdef \<Rightarrow> fn_def" where
  "fn_def_of f =
     \<lparr>fn_name = fd_name f, fn_line = fd_lineno f, fn_is_test = startswith (fd_name f) ''test_''\<rparr>"

definition cls_def_of :: "cdef \<Rightarrow> cls_def" where
  "cls_def_of c = \<lparr>cls_name = cd_name c, cls_line = cd_lineno c\<rparr>"

lemma fold_extract_definitions_step:
  "fold extract_definitions_step xs self =
     self\<lparr>ca_functions := ca_functions self @ map (fn_def_of \<circ> fst) (List.map_filter as_function xs),
          ca_classes := ca_classes self @ map cls_def_of (List.map_filter as_class xs)\<rparr>"
proof (induction xs arbitrary: self)
  case Nil
  show ?case by (simp add: List.map_filter_simps)
next
  case (Cons x xs)
  show ?case
    by (cases x) (simp_all add: Cons List.map_filter_simps fn_def_of_def cls_def_of_def)
qed

lemma mset_function_defs: "image_mset fst (mset (function_defs tree)) = mset (fdefs_in tree)"
  unfolding function_defs_def fdefs_in_def
  by (simp only: mset_map mset_map_filter_cong[OF mset_walk])

lemma mset_class_defs: "mset (class_defs tree) = mset (cdefs_in tree)"
  unfolding class_defs_def cdefs_in_def
  by (rule mset_map_filter_cong[OF mset_walk])

lemma extract_definitions_functions:
  "mset (ca_functions (extract_definitions
           \<lparr>ca_code = code, ca_filepath = fp, ca_tree = tree, ca_functions = [], ca_classes = []\<rparr>))
   = mset (map fn_def_of (fdefs_in tree))"
proof -
  have "mset (map (fn_def_of \<circ> fst) (function_defs tree)) = image_mset fn_def_of (mset (map fst (function_defs tree)))"
    by (simp add: multiset.map_comp)
  also have "\<dots> = mset (map fn_def_of (fdefs_in tree))"
    by (simp add: mset_function_defs)
  finally show ?thesis
    by (simp add: extract_definitions_def fold_extract_definitions_step function_defs_def)
qed

lemma extract_definitions_classes:
  "mset (ca_classes (extract_definitions
           \<lparr>ca_code = code, ca_filepath = fp, ca_tree = tree, ca_functions = [], ca_classes = []\<rparr>))
   = mset (map cls_def_of (cdefs_in tree))"
proof -
  have "mset (map cls_def_of (class_defs tree)) = mset (map cls_def_of (cdefs_in tree))"
    by (simp add: mset_class_defs)
  then show ?thesis
    by (simp add: extract_definitions_def fold_extract_definitions_step class_defs_def)
qed


lemma sample_parse_nested: "ast_parse sample_env src_nested = Some tree_nested"
  by (simp add: sample_env_def src_invalid_def src_empty_def src_dup_def src_cov_def src_ifs_def
      src_nested_def)

lemma fdefs_in_nested:
  "map fn_def_of (fdefs_in tree_nested) =
     [\<lparr>fn_name = ''m'', fn_line = 2, fn_is_test = False\<rparr>,
      \<lparr>fn_name = ''inner'', fn_line = 3, fn_is_test = False\<rparr>,
      \<lparr>fn_name = ''test_x'', fn_line = 5, fn_is_test = True\<rparr>]"
  by (simp add: fdefs_in_def tree_nested_def subnodes.simps List.map_filter_simps fn_def_of_def
      startswith_def)

lemma cdefs_in_nested:
  "map cls_def_of (cdefs_in tree_nested) = [\<lparr>cls_name = ''C'', cls_line = 1\<rparr>]"
  by (simp add: cdefs_in_def tree_nested_def subnodes.simps List.map_filter_simps cls_def_of_def)

text \<open>
  C4. For every parsable text the extractor (\<^verbatim>\<open>CoverageAnalyzer._extract_definitions\<close>)
  collects exactly the function definitions and the class definitions that occur anywhere
  in the tree, nested functions and methods included, each once, with its name and its
  \<^verbatim>\<open>lineno\<close>; a collected function is marked as a test exactly when its name starts with
  \<^verbatim>\<open>test_\<close>. \<^verbatim>\<open>CodeMetrics._function_info\<close> and \<^verbatim>\<open>_class_info\<close> count and name the
  same definitions.
\<close>

theorem extractor_collects_definitions:
  assumes "ast_parse e code = Some tree"
  shows "\<exists>a. CoverageAnalyzer e code fp = Inr a
    \<and> mset (ca_functions a) = mset (map fn_def_of (fdefs_in tree))
    \<and> mset (ca_classes a) = mset (map cls_def_of (cdefs_in tree))
    \<and> (\<forall>x \<in> set (ca_functions a). fn_is_test x = startswith (fn_name x) ''test_'')
    \<and> ni_count (function_info tree) = length (fdefs_in tree)
    \<and> mset (ni_names (function_info tree)) = mset (map fd_name (fdefs_in tree))
    \<and> ni_count (class_info tree) = length (cdefs_in tree)
    \<and> mset (ni_names (class_info tree)) = mset (map cd_name (cdefs_in tree))"
proof -
  let ?a = "extract_definitions
      \<lparr>ca_code = code, ca_filepath = fp, ca_tree = tree, ca_functions = [], ca_classes = []\<rparr>"
  have a: "CoverageAnalyzer e code fp = Inr ?a"
    using assms by (simp add: CoverageAnalyzer_def)
  have f: "mset (ca_functions ?a) = mset (map fn_def_of (fdefs_in tree))"
    by (rule extract_definitions_functions)
  have c: "mset (ca_classes ?a) = mset (map cls_def_of (cdefs_in tree))"
    by (rule extract_definitions_classes)
  have "set (ca_functions ?a) = set (map fn_def_of (fdefs_in tree))"
    using f by (rule mset_eq_setD)
  then have t: "\<forall>x \<in> set (ca_functions ?a). fn_is_test x = startswith (fn_name x) ''test_''"
    by (auto simp: fn_def_of_def)
  have n1: "ni_count (function_info tree) = length (fdefs_in tree)"
  proof -
    have "size (image_mset fst (mset (function_defs tree))) = size (mset (fdefs_in tree))"
      by (simp only: mset_function_defs)
    then show ?thesis by (simp add: function_info_def Let_def)
  qed
  have n2: "mset (ni_names (function_info tree)) = mset (map fd_name (fdefs_in tree))"
  proof -
    have "mset (map (\<lambda>(f, n). fd_name f) (function_defs tree))
          = image_mset fd_name (image_mset fst (mset (function_defs tree)))"
      by (simp add: multiset.map_comp comp_def case_prod_unfold)
    then show ?thesis
      by (simp add: function_info_def mset_function_defs Let_def)
  qed
  have n3: "ni_count (class_info tree) = length (cdefs_in tree)"
  proof -
    have "size (mset (class_defs tree)) = size (mset (cdefs_in tree))"
      by (simp only: mset_class_defs)
    then show ?thesis by (simp add: class_info_def Let_def)
  qed
  have n4: "mset (ni_names (class_info tree)) = mset (map cd_name (cdefs_in tree))"
    by (simp add: class_info_def mset_class_defs Let_def)
  from a f c t n1 n2 n3 n4 show ?thesis by blast
qed

theorem extractor_collects_definitions_witness:
  "ast_parse sample_env src_nested = Some tree_nested \<and>
   (\<exists>a. CoverageAnalyzer sample_env src_nested ''code.py'' = Inr a
     \<and> mset (ca_functions a) =
          {#\<lparr>fn_name = ''m'', fn_line = 2, fn_is_test = False\<rparr>,
            \<lparr>fn_name = ''inner'', fn_line = 3, fn_is_test = False\<rparr>,
            \<lparr>fn_name = ''test_x'', fn_line = 5, fn_is_test = True\<rparr>#}
     \<and> mset (ca_classes a) = {#\<lparr>cls_name = ''C'', cls_line = 1\<rparr>#}
     \<and> ni_count (function_info tree_nested) = 3)"
proof -
  have l: "length (fdefs_in tree_nested) = 3"
    using arg_cong[OF fdefs_in_nested, of length] by simp
  from extractor_collects_definitions[OF sample_parse_nested, of "''code.py''"]
  obtain a where "CoverageAnalyzer sample_env src_nested ''code.py'' = Inr a"
    "mset (ca_functions a) = mset (map fn_def_of (fdefs_in tree_nested))"
    "mset (ca_classes a) = mset (map cls_def_of (cdefs_in tree_nested))"
    "ni_count (function_info tree_nested) = length (fdefs_in tree_nested)"
    by blast
  then show ?thesis
    using sample_parse_nested by (simp add: fdefs_in_nested cdefs_in_nested l)
qed

section \<open>Cyclomatic complexity\<close>

text \<open>
  The nodes that add one to the complexity: conditionals, loops, exception handlers and
  \<^verbatim>\<open>with\<close> blocks; and the operands of a boolean combinator.
\<close>

fun is_branch :: "node \<Rightarrow> bool" where
  "is_branch (If cs) = True"
| "is_branch (While cs) = True"
| "is_branch (For cs) = True"
| "is_branch (ExceptHandler cs) = True"
| "is_branch (With cs) = True"
| "is_branch n = False"

fun boolop_values :: "node \<Rightarrow> node list option" where
  "boolop_values (BoolOp vs) = Some vs"
| "boolop_values n = None"

definition decision_points :: "node list \<Rightarrow> int" where
  "decision_points xs =
     int (length (filter is_branch xs))
     + sum_list (map (\<lambda>vs. int (length vs) - 1) (List.map_filter boolop_values xs))"

lemma fold_complexity_step: "fold complexity_step xs c = c + decision_points xs"
proof (induction xs arbitrary: c)
  case Nil
  show ?case by (simp add: decision_points_def List.map_filter_simps)
next
  case (Cons x xs)
  have "decision_points (x # xs) = complexity_step x 0 + decision_points xs"
    by (cases x) (simp_all add: decision_points_def List.map_filter_simps)
  moreover have "complexity_step x c = c + complexity_step x 0"
    by (cases x) simp_all
  ultimately show ?case by (simp add: Cons)
qed

lemma decision_points_mset:
  assumes "mset xs = mset ys"
  shows "decision_points xs = decision_points ys"
proof -
  have "mset (List.map_filter boolop_values xs) = mset (List.map_filter boolop_values ys)"
    using assms by (rule mset_map_filter_cong)
  then have "sum_list (map (\<lambda>vs. int (length vs) - 1) (List.map_filter boolop_values xs))
           = sum_list (map (\<lambda>vs. int (length vs) - 1) (List.map_filter boolop_values ys))"
    by (rule sum_list_map_cong_mset)
  moreover have "length (filter is_branch xs) = length (filter is_branch ys)"
    using assms by (rule length_filter_cong_mset)
  ultimately show ?thesis by (simp add: decision_points_def)
qed

lemma calculate_complexity_subnodes: "calculate_complexity n = 1 + decision_points (subnodes n)"
  unfolding calculate_complexity_def fold_complexity_step
  using decision_points_mset[OF mset_walk, of n] by simp

lemma no_functions_default:
  assumes "\<forall>f \<in> set (fdefs_in tree). startswith (fd_name f) ''test_''"
  shows "function_complexity tree = \<lparr>cx_average = 1, cx_maximum = 1, cx_complex_functions = []\<rparr>"
proof -
  have "set_mset (image_mset fst (mset (function_defs tree))) = set_mset (mset (fdefs_in tree))"
    by (simp only: mset_function_defs)
  then have "fst ` set (function_defs tree) = set (fdefs_in tree)"
    by simp
  with assms have "\<forall>p \<in> set (function_defs tree). startswith (fd_name (fst p)) ''test_''"
    by auto
  then have "filter (\<lambda>(f, n). \<not> startswith (fd_name f) ''test_'') (function_defs tree) = []"
    by (auto simp: filter_empty_conv)
  then show ?thesis by (simp add: function_complexity_def)
qed

text \<open>The function \<^verbatim>\<open>f\<close> of the sample with three \<^verbatim>\<open>if\<close> statements.\<close>

definition fn_ifs :: node where
  "fn_ifs = hd (children tree_ifs)"

lemma subnodes_fn_ifs:
  "filter is_branch (subnodes fn_ifs)
     = [If [Other [Other []], Other [Other [Other []], Other []]],
        If [Other [Other []], Other [Other [Other []], Other []]],
        If [Other [Other []], Other [Other [Other []], Other []]]]
   \<and> List.map_filter boolop_values (subnodes fn_ifs) = []"
  by (simp add: fn_ifs_def tree_ifs_def subnodes.simps List.map_filter_simps)

lemma fdefs_in_empty: "fdefs_in tree_empty = []"
  by (simp add: fdefs_in_def tree_empty_def subnodes.simps List.map_filter_simps)

text \<open>
  C9. The cyclomatic complexity of a function is 1, plus 1 for every conditional, loop,
  exception handler and \<^verbatim>\<open>with\<close> block anywhere in the function's subtree, plus \<open>n - 1\<close>
  for every boolean combinator with \<open>n\<close> operands there. A function whose subtree has three
  \<^verbatim>\<open>if\<close> statements, no other such block and no boolean combinator has complexity 4. When
  the tree has no function other than test functions, the reported average is 1.0 and the
  maximum is 1.
\<close>

theorem cyclomatic_complexity:
  "calculate_complexity n
     = 1 + int (length (filter is_branch (subnodes n)))
         + sum_list (map (\<lambda>vs. int (length vs) - 1) (List.map_filter boolop_values (subnodes n)))
   \<and> (filter is_branch (subnodes n) = [If a, If b, If c]
        \<and> List.map_filter boolop_values (subnodes n) = [] \<longrightarrow> calculate_complexity n = 4)
   \<and> ((\<forall>f \<in> set (fdefs_in tree). startswith (fd_name f) ''test_'') \<longrightarrow>
        cx_average (function_complexity tree) = 1 \<and> cx_maximum (function_complexity tree) = 1)"
proof -
  have 1: "calculate_complexity n
     = 1 + int (length (filter is_branch (subnodes n)))
         + sum_list (map (\<lambda>vs. int (length vs) - 1) (List.map_filter boolop_values (subnodes n)))"
    by (simp add: calculate_complexity_subnodes decision_points_def)
  have 2: "filter is_branch (subnodes n) = [If a, If b, If c]
        \<and> List.map_filter boolop_values (subnodes n) = [] \<longrightarrow> calculate_complexity n = 4"
    by (simp add: 1)
  have 3: "(\<forall>f \<in> set (fdefs_in tree). startswith (fd_name f) ''test_'') \<longrightarrow>
        cx_average (function_complexity tree) = 1 \<and> cx_maximum (function_complexity tree) = 1"
    by (simp add: no_functions_default)
  from 1 2 3 show ?thesis by blast
qed

theorem cyclomatic_complexity_witness:
  "calculate_complexity fn_ifs = 4
   \<and> cx_average (function_complexity tree_empty) = 1
   \<and> cx_maximum (function_complexity tree_empty) = 1"
  using cyclomatic_complexity[of fn_ifs _ _ _ tree_empty] subnodes_fn_ifs fdefs_in_empty
  by simp

section \<open>The total score\<close>











section \<open>The coverage estimate\<close>








section \<open>The duplicate pairs\<close>

text \<open>
  The pairs of positions \<open>i < j < n\<close> in the order of the two nested loops of
  \<^verbatim>\<open>detect\<close>; whether the functions at a pair of positions are recorded as duplicates,
  and the record made for them.
\<close>

definition index_pairs :: "nat \<Rightarrow> (nat \<times> nat) list" where
  "index_pairs n = concat (map (\<lambda>i. map (Pair i) [i + 1..<n]) [0..<n])"

definition is_duplicate :: "func_entry list \<Rightarrow> nat \<times> nat \<Rightarrow> bool" where
  "is_duplicate fs p =
     (3 / 4 \<le> calculate_similarity (fe_normalized (fs ! fst p)) (fe_normalized (fs ! snd p)))"

definition mk_duplicate :: "func_entry list \<Rightarrow> nat \<times> nat \<Rightarrow> duplicate" where
  "mk_duplicate fs p =
     \<lparr>function1 = fe_name (fs ! fst p), function2 = fe_name (fs ! snd p),
      similarity = py_round (calculate_similarity (fe_normalized (fs ! fst p))
                               (fe_normalized (fs ! snd p)) * 100) 1,
      line1 = fe_line (fs ! fst p), line2 = fe_line (fs ! snd p)\<rparr>"

text \<open>The distinct function names that appear in a list of recorded pairs.\<close>

definition pair_names :: "duplicate list \<Rightarrow> string set" where
  "pair_names ds = function1 ` set ds \<union> function2 ` set ds"

lemma fold_pairs:
  "fold (\<lambda>i. fold (f i) (js i)) is st
     = fold (\<lambda>p. f (fst p) (snd p)) (concat (map (\<lambda>i. map (Pair i) (js i)) is)) st"
proof (induction "is" arbitrary: st)
  case Nil
  show ?case by simp
next
  case (Cons i "is")
  have "fold (\<lambda>p. f (fst p) (snd p)) (map (Pair i) (js i)) st = fold (f i) (js i) st"
    by (simp add: fold_map comp_def)
  then show ?case by (simp add: Cons)
qed

lemma fold_compare_step:
  "fold (\<lambda>p. compare_step fs (fst p) (snd p)) ps (dups, dup_names)
     = (dups @ map (mk_duplicate fs) (filter (is_duplicate fs) ps),
        dup_names \<union> pair_names (map (mk_duplicate fs) (filter (is_duplicate fs) ps)))"
proof (induction ps arbitrary: dups dup_names)
  case Nil
  show ?case by (simp add: pair_names_def)
next
  case (Cons p ps)
  show ?case
  proof (cases "is_duplicate fs p")
    case True
    then have "compare_step fs (fst p) (snd p) (dups, dup_names)
        = (dups @ [mk_duplicate fs p],
           insert (fe_name (fs ! snd p)) (insert (fe_name (fs ! fst p)) dup_names))"
      by (simp add: compare_step_def is_duplicate_def mk_duplicate_def Let_def)
    then show ?thesis
      using True by (auto simp: Cons pair_names_def mk_duplicate_def)
  next
    case False
    then have "compare_step fs (fst p) (snd p) (dups, dup_names) = (dups, dup_names)"
      by (simp add: compare_step_def is_duplicate_def Let_def)
    then show ?thesis
      using False by (simp add: Cons)
  qed
qed

lemma find_duplicates_eq:
  "find_duplicates fs
     = (map (mk_duplicate fs) (filter (is_duplicate fs) (index_pairs (length fs))),
        pair_names (map (mk_duplicate fs) (filter (is_duplicate fs) (index_pairs (length fs)))))"
  unfolding find_duplicates_def index_pairs_def
  by (simp only: fold_pairs[of "compare_step fs" "\<lambda>i. [i + 1..<length fs]"] fold_compare_step)
    simp

lemma index_pairs_mem: "(i, j) \<in> set (index_pairs n) \<longleftrightarrow> i < j \<and> j < n"
proof
  assume "(i, j) \<in> set (index_pairs n)"
  then show "i < j \<and> j < n" by (auto simp: index_pairs_def)
next
  assume a: "i < j \<and> j < n"
  then have "i \<in> {0..<n}" "(i, j) \<in> Pair i ` {i + 1..<n}" by auto
  then have "(i, j) \<in> (\<Union>i\<in>{0..<n}. Pair i ` {i + 1..<n})" by (rule UN_I)
  then show "(i, j) \<in> set (index_pairs n)"
    unfolding index_pairs_def by (simp only: set_concat set_map set_upt image_image)
qed

lemma distinct_index_pairs: "distinct (index_pairs n)"
  unfolding index_pairs_def
proof (rule distinct_concat)
  have "inj_on (\<lambda>i. map (Pair i) [i + 1..<n]) (set [0..<n])"
  proof (rule inj_onI)
    fix x y
    assume x: "x \<in> set [0..<n]" and y: "y \<in> set [0..<n]"
      and eq: "map (Pair x) [x + 1..<n] = map (Pair y) [y + 1..<n]"
    from eq have "length (map (Pair x) [x + 1..<n]) = length (map (Pair y) [y + 1..<n])"
      by (rule arg_cong)
    then have "n - (x + 1) = n - (y + 1)" by (simp only: length_map length_upt)
    moreover from x y have "x < n" "y < n" by simp_all
    ultimately show "x = y" by linarith
  qed
  moreover have "distinct [0..<n]" by (rule distinct_upt)
  ultimately show "distinct (map (\<lambda>i. map (Pair i) [i + 1..<n]) [0..<n])"
    by (simp only: distinct_map simp_thms)
next
  fix ys
  assume "ys \<in> set (map (\<lambda>i. map (Pair i) [i + 1..<n]) [0..<n])"
  then obtain i where ys: "ys = map (Pair i) [i + 1..<n]" by auto
  have "inj_on (Pair i) (set [i + 1..<n])" by (rule inj_onI) simp
  then show "distinct ys" unfolding ys by (simp only: distinct_map distinct_upt simp_thms)
next
  fix ys zs
  assume "ys \<in> set (map (\<lambda>i. map (Pair i) [i + 1..<n]) [0..<n])"
    and "zs \<in> set (map (\<lambda>i. map (Pair i) [i + 1..<n]) [0..<n])" and ne: "ys \<noteq> zs"
  then obtain i k where ys: "ys = map (Pair i) [i + 1..<n]" and zs: "zs = map (Pair k) [k + 1..<n]"
    by auto
  from ne ys zs have ik: "i \<noteq> k" by blast
  have "fst ` set ys \<subseteq> {i}" "fst ` set zs \<subseteq> {k}" unfolding ys zs by auto
  with ik show "set ys \<inter> set zs = {}" by blast
qed

lemma distinct_unordered_pairs: "distinct (map (\<lambda>p. {fst p, snd p}) (index_pairs n))"
proof -
  have "inj_on (\<lambda>p. {fst p, snd p}) (set (index_pairs n))"
  proof (rule inj_onI)
    fix p q :: "nat \<times> nat"
    assume p: "p \<in> set (index_pairs n)" and q: "q \<in> set (index_pairs n)"
      and eq: "{fst p, snd p} = {fst q, snd q}"
    from p have "(fst p, snd p) \<in> set (index_pairs n)" by simp
    then have lp: "fst p < snd p" by (simp only: index_pairs_mem)
    from q have "(fst q, snd q) \<in> set (index_pairs n)" by simp
    then have lq: "fst q < snd q" by (simp only: index_pairs_mem)
    from eq have "fst p = fst q \<and> snd p = snd q \<or> fst p = snd q \<and> snd p = fst q"
      by (simp only: doubleton_eq_iff)
    with lp lq have "fst p = fst q \<and> snd p = snd q" by linarith
    then show "p = q" by (simp only: prod_eq_iff)
  qed
  then show ?thesis
    by (simp only: distinct_map distinct_index_pairs simp_thms)
qed

lemma extract_step_names:
  assumes "\<forall>f \<in> set acc. \<not> startswith (fe_name f) ''test_''"
  shows "\<forall>f \<in> set (extract_step m n acc). \<not> startswith (fe_name f) ''test_''"
  using assms by (cases n) (auto simp: Let_def split: option.splits)

lemma fold_extract_step_names:
  assumes "\<forall>f \<in> set acc. \<not> startswith (fe_name f) ''test_''"
  shows "\<forall>f \<in> set (fold (extract_step m) xs acc). \<not> startswith (fe_name f) ''test_''"
  using assms
proof (induction xs arbitrary: acc)
  case Nil
  then show ?case by simp
next
  case (Cons x xs)
  from extract_step_names[OF Cons.prems, of m x] show ?case
    by (simp add: Cons.IH)
qed

lemma extract_functions_names:
  "\<forall>f \<in> set (extract_functions m tree). \<not> startswith (fe_name f) ''test_''"
  unfolding extract_functions_def by (rule fold_extract_step_names) simp

lemma detect_eq:
  assumes "dd_tree d = Some tree"
  shows "detect d =
     (let fs = extract_functions (dd_min_function_lines d) tree;
          ds = map (mk_duplicate fs) (filter (is_duplicate fs) (index_pairs (length fs)));
          percent = of_nat (card (pair_names ds)) / of_nat (max (length fs) 1) * 100
      in \<lparr>duplicate_pairs = length ds, duplicates = ds,
          duplication_percent = py_round percent 1,
          severity = calculate_severity (length ds) percent\<rparr>)"
proof -
  have m: "(if fs \<noteq> [] then length fs else 1) = max (length fs) 1" for fs :: "func_entry list"
    by (cases fs) simp_all
  show ?thesis
    using assms by (simp add: detect_def find_duplicates_eq Let_def m del: max.absorb1 max.absorb2 max.absorb3 max.absorb4)
qed


lemma sample_parse_dup: "ast_parse sample_env src_dup = Some tree_dup"
  by (simp add: sample_env_def src_invalid_def src_empty_def src_dup_def src_cov_def src_ifs_def
      src_nested_def)

lemma detect_dup:
  "detect (DuplicateCodeDetector sample_env src_dup 3)
     = \<lparr>duplicate_pairs = 1,
        duplicates = [\<lparr>function1 = ''f'', function2 = ''g'', similarity = 929 / 10,
                       line1 = 1, line2 = 5\<rparr>],
        duplication_percent = 667 / 10, severity = ''medium''\<rparr>"
  by code_simp



text \<open>
  C7. The names in a recorded pair never start with \<^verbatim>\<open>test_\<close>. The recorded pairs are
  made, in order, from the pairs of positions \<open>i < j\<close> of the list of candidate functions
  whose similarity reaches the threshold; no pair of positions occurs twice, in either
  order.
\<close>

theorem duplicate_pairs_invariants:
  assumes "ast_parse e code = Some tree"
  shows "(let fs = extract_functions m tree;
              ds = duplicates (detect (DuplicateCodeDetector e code m));
              ps = filter (is_duplicate fs) (index_pairs (length fs))
          in (\<forall>d \<in> set ds. \<not> startswith (function1 d) ''test_''
                             \<and> \<not> startswith (function2 d) ''test_'')
           \<and> ds = map (mk_duplicate fs) ps
           \<and> (\<forall>p \<in> set ps. fst p < snd p \<and> snd p < length fs)
           \<and> distinct ps
           \<and> distinct (map (\<lambda>p. {fst p, snd p}) ps))"
proof -
  define fs where "fs = extract_functions m tree"
  define ps where "ps = filter (is_duplicate fs) (index_pairs (length fs))"
  define ds where "ds = duplicates (detect (DuplicateCodeDetector e code m))"
  have t: "dd_tree (DuplicateCodeDetector e code m) = Some tree"
    using assms by (simp add: DuplicateCodeDetector_def)
  have ds: "ds = map (mk_duplicate fs) ps"
    unfolding ds_def detect_eq[OF t] by (simp add: Let_def DuplicateCodeDetector_def fs_def ps_def)
  have lt: "\<forall>p \<in> set ps. fst p < snd p \<and> snd p < length fs"
  proof
    fix p assume "p \<in> set ps"
    then have "(fst p, snd p) \<in> set (index_pairs (length fs))" by (simp add: ps_def)
    then show "fst p < snd p \<and> snd p < length fs" by (simp only: index_pairs_mem)
  qed
  have names: "\<forall>d \<in> set ds. \<not> startswith (function1 d) ''test_''
                             \<and> \<not> startswith (function2 d) ''test_''"
  proof
    fix d assume "d \<in> set ds"
    then obtain p where p: "p \<in> set ps" and d: "d = mk_duplicate fs p"
      unfolding ds by auto
    from lt p have "fst p < length fs" "snd p < length fs" by auto
    then have "fs ! fst p \<in> set fs" "fs ! snd p \<in> set fs" by simp_all
    then have "\<not> startswith (fe_name (fs ! fst p)) ''test_''"
      and "\<not> startswith (fe_name (fs ! snd p)) ''test_''"
      using extract_functions_names[of m tree] unfolding fs_def by blast+
    then show "\<not> startswith (function1 d) ''test_'' \<and> \<not> startswith (function2 d) ''test_''"
      by (simp add: d mk_duplicate_def)
  qed
  have d1: "distinct ps"
    unfolding ps_def by (rule distinct_filter) (rule distinct_index_pairs)
  have inj: "inj_on (\<lambda>p. {fst p, snd p}) (set ps)"
  proof (rule inj_onI)
    fix p q :: "nat \<times> nat"
    assume "p \<in> set ps" "q \<in> set ps" and eq: "{fst p, snd p} = {fst q, snd q}"
    with lt have lp: "fst p < snd p" and lq: "fst q < snd q" by auto
    from eq have "fst p = fst q \<and> snd p = snd q \<or> fst p = snd q \<and> snd p = fst q"
      by (simp only: doubleton_eq_iff)
    with lp lq have "fst p = fst q \<and> snd p = snd q" by linarith
    then show "p = q" by (simp only: prod_eq_iff)
  qed
  have d2: "distinct (map (\<lambda>p. {fst p, snd p}) ps)"
    using inj d1 by (simp only: distinct_map simp_thms)
  from names ds lt d1 d2 show ?thesis
    unfolding Let_def fs_def[symmetric] ds_def[symmetric] ps_def[symmetric] by blast
qed

theorem duplicate_pairs_invariants_witness:
  "ast_parse sample_env src_dup = Some tree_dup
   \<and> duplicates (detect (DuplicateCodeDetector sample_env src_dup 3))
       = [\<lparr>function1 = ''f'', function2 = ''g'', similarity = 929 / 10, line1 = 1, line2 = 5\<rparr>]
   \<and> (let fs = extract_functions 3 tree_dup;
           ds = duplicates (detect (DuplicateCodeDetector sample_env src_dup 3));
           ps = filter (is_duplicate fs) (index_pairs (length fs))
       in (\<forall>d \<in> set ds. \<not> startswith (function1 d) ''test_''
                          \<and> \<not> startswith (function2 d) ''test_'')
        \<and> ds = map (mk_duplicate fs) ps
        \<and> (\<forall>p \<in> set ps. fst p < snd p \<and> snd p < length fs)
        \<and> distinct ps
        \<and> distinct (map (\<lambda>p. {fst p, snd p}) ps))"
  using duplicate_pairs_invariants[OF sample_parse_dup, of 3] sample_parse_dup
  by (simp only: detect_dup duplication_result.simps simp_thms)






end
